theory Spec2Isabelle
  imports Complex_Main
begin

section \<open>The DICOM viewer of \<^verbatim>\<open>src/website/dirt/dirt.py\<close>\<close>

text \<open>
  The viewer keeps a stack of frames (a NumPy array of shape \<open>N \<times> H \<times> W\<close>, float32),
  the widgets that hold the window, the level, the subtraction choice and the ROI, and
  the registry of saved ROIs: the dictionary \<^verbatim>\<open>roi_data\<close> and the table
  \<^verbatim>\<open>roi_table\<close>. The model is a record of that state; every handler of the class
  \<^verbatim>\<open>DICOMViewer\<close> is a function from the state to what the user is told and the
  state afterwards.

  Pixel intensities are finite numbers (DICOM pixel data converted to float32); they
  are modelled as reals, so the rounding of float32 arithmetic is not part of the model.
  The one float that the code tests for is \<^verbatim>\<open>np.nan\<close>, the value recorded for a
  slice whose mask is empty; it is a constructor of its own.
\<close>

subsection \<open>Data\<close>

type_synonym frame = "real list list"

datatype fval = Num real | NaN

datatype py_error = ValueError | IndexError

datatype message =
    ROI_Hidden
  | Invalid_Name
  | ROI_Out_of_Bounds
  | Empty_ROI
  | ROI_Analysis real real real
  | ROI_Saved string
  | No_Data
  | Save_Successful string

text \<open>
  \<open>Warning\<close> and \<open>Information\<close> are the two kinds of \<^verbatim>\<open>QMessageBox\<close> the
  handlers open before they return; \<open>Raised\<close> is an exception that leaves the handler;
  \<open>Silent\<close> is a return with no dialog.
\<close>

datatype outcome = Warning message | Information message | Raised py_error | Silent

record viewer =
  images :: "frame list"
  image_height :: nat
  image_width :: nat
  current_slice :: nat
  window_slider :: int
  level_slider :: int
  subtraction_combo :: int
  overlay_checkbox :: bool
  roi_pos :: "real \<times> real"
  roi_diameter :: int
  roi_name_input :: string
  roi_data :: "string \<rightharpoonup> fval list"
  roi_table :: "string list list"
  pixmap_item :: "int list list option"

text \<open>
  \<open>image_height\<close> and \<open>image_width\<close> are \<^verbatim>\<open>images.shape[1]\<close> and
  \<^verbatim>\<open>images.shape[2]\<close>; \<open>subtraction_combo\<close> is the combo box's current index
  (0 is the entry 'None', \<open>k + 1\<close> the entry 'Image k'); \<open>roi_pos\<close> is
  \<^verbatim>\<open>roi_item.pos()\<close> as \<open>(x, y)\<close>. A loaded stack is a well-formed array with at
  least one frame and one pixel, and the slice slider stays inside it.
\<close>

definition wf_images :: "viewer \<Rightarrow> bool" where
  "wf_images st \<longleftrightarrow>
     images st \<noteq> [] \<and> 0 < image_height st \<and> 0 < image_width st \<and>
     list_all (\<lambda>f. length f = image_height st \<and>
                    list_all (\<lambda>row. length row = image_width st) f) (images st) \<and>
     current_slice st < length (images st)"

subsection \<open>Python and NumPy primitives\<close>

text \<open>\<^verbatim>\<open>int(x)\<close> on a float truncates toward zero.\<close>

definition py_int :: "real \<Rightarrow> int" where
  "py_int x = (if 0 \<le> x then \<lfloor>x\<rfloor> else \<lceil>x\<rceil>)"

text \<open>\<^verbatim>\<open>str.strip()\<close>, on the ASCII whitespace characters.\<close>

definition isspace :: "char \<Rightarrow> bool" where
  "isspace c \<longleftrightarrow> c \<in> set [CHR '' '', CHR 0x09, CHR 0x0A, CHR 0x0B, CHR 0x0C, CHR 0x0D,
                               CHR 0x1C, CHR 0x1D, CHR 0x1E, CHR 0x1F]"

definition py_strip :: "string \<Rightarrow> string" where
  "py_strip s = rev (dropWhile isspace (rev (dropWhile isspace s)))"

text \<open>
  \<^verbatim>\<open>a[y:y+d, x:x+d]\<close> for non-negative bounds: NumPy clips a slice to the array.
\<close>

definition slice2 :: "frame \<Rightarrow> nat \<Rightarrow> nat \<Rightarrow> nat \<Rightarrow> frame" where
  "slice2 a y x d = map (\<lambda>row. take d (drop x row)) (take d (drop y a))"

text \<open>
  \<^verbatim>\<open>a[mask]\<close> with a boolean mask of the shape of \<open>a\<close>: the selected values in
  row-major order.
\<close>

definition bool_index :: "frame \<Rightarrow> bool list list \<Rightarrow> real list" where
  "bool_index a msk = concat (map2 (\<lambda>row mrow. map fst (filter snd (zip row mrow))) a msk)"

fun np_max :: "real list \<Rightarrow> real" where
  "np_max [] = 0"
| "np_max (x # xs) = fold max xs x"

fun np_min :: "real list \<Rightarrow> real" where
  "np_min [] = 0"
| "np_min (x # xs) = fold min xs x"

definition np_mean :: "real list \<Rightarrow> real" where
  "np_mean xs = sum_list xs / real (length xs)"

text \<open>
  \<open>np_max\<close>, \<open>np_min\<close> and \<open>np_mean\<close> are only called on non-empty lists: the
  callers test \<^verbatim>\<open>size == 0\<close> or catch the empty sequence first.
\<close>

subsection \<open>The circular mask\<close>

text \<open>
  \<^verbatim>\<open>Y, X = np.ogrid[:diameter, :diameter]\<close>,
  \<^verbatim>\<open>dist_from_center = np.sqrt((X - radius)**2 + (Y - radius)**2)\<close>,
  \<^verbatim>\<open>mask = dist_from_center <= radius\<close>.
\<close>

definition dist_from_center :: "real \<Rightarrow> nat \<Rightarrow> nat \<Rightarrow> real" where
  "dist_from_center radius Y X = sqrt ((real X - radius)\<^sup>2 + (real Y - radius)\<^sup>2)"

definition mask_at :: "real \<Rightarrow> nat \<Rightarrow> nat \<Rightarrow> bool" where
  "mask_at radius Y X \<longleftrightarrow> dist_from_center radius Y X \<le> radius"

definition circular_mask :: "int \<Rightarrow> real \<Rightarrow> bool list list" where
  "circular_mask diameter radius =
     map (\<lambda>Y. map (\<lambda>X. mask_at radius Y X) [0..<nat diameter]) [0..<nat diameter]"

subsection \<open>The bounding box and its check\<close>

definition radius_of :: "viewer \<Rightarrow> real" where
  "radius_of st = real_of_int (roi_diameter st) / 2"

definition x_start :: "viewer \<Rightarrow> int" where
  "x_start st = py_int (fst (roi_pos st) - radius_of st)"

definition y_start :: "viewer \<Rightarrow> int" where
  "y_start st = py_int (snd (roi_pos st) - radius_of st)"

definition out_of_bounds :: "viewer \<Rightarrow> bool" where
  "out_of_bounds st \<longleftrightarrow>
     x_start st < 0 \<or> y_start st < 0 \<or>
     x_start st + roi_diameter st > int (image_width st) \<or>
     y_start st + roi_diameter st > int (image_height st)"

text \<open>The masked pixels of one frame, once the box has passed the check.\<close>

definition masked_roi :: "viewer \<Rightarrow> frame \<Rightarrow> real list" where
  "masked_roi st current_image =
     (let roi = slice2 current_image (nat (y_start st)) (nat (x_start st)) (nat (roi_diameter st))
      in bool_index roi (circular_mask (roi_diameter st) (radius_of st)))"

subsection \<open>\<^verbatim>\<open>analyze_roi\<close>\<close>

definition analyze_roi :: "viewer \<Rightarrow> outcome \<times> viewer" where
  "analyze_roi st =
     (if \<not> overlay_checkbox st then (Warning ROI_Hidden, st)
      else if out_of_bounds st then (Warning ROI_Out_of_Bounds, st)
      else if \<not> current_slice st < length (images st) then (Raised IndexError, st)
      else
        let m = masked_roi st (images st ! current_slice st) in
        if m = [] then (Warning Empty_ROI, st)
        else
          let max_val = np_max m; min_val = np_min m; diff = max_val - min_val
          in (Information (ROI_Analysis max_val min_val diff), st))"

subsection \<open>\<^verbatim>\<open>save_roi\<close>\<close>

text \<open>The loop over the slices: one value per frame, \<open>NaN\<close> where the mask is empty.\<close>

definition roi_value :: "viewer \<Rightarrow> frame \<Rightarrow> fval" where
  "roi_value st current_image =
     (let m = masked_roi st current_image in if m = [] then NaN else Num (np_mean m))"

definition roi_values :: "viewer \<Rightarrow> fval list" where
  "roi_values st = map (roi_value st) (images st)"

text \<open>\<^verbatim>\<open>filter(lambda x: not np.isnan(x), roi_values)\<close>\<close>

fun not_nan :: "fval list \<Rightarrow> real list" where
  "not_nan [] = []"
| "not_nan (Num x # vs) = x # not_nan vs"
| "not_nan (NaN # vs) = not_nan vs"

subsection \<open>Text of a float\<close>

definition digit :: "nat \<Rightarrow> char" where
  "digit n = ''0123456789'' ! n"

fun dec_digits :: "nat \<Rightarrow> string" where
  "dec_digits n = (if n < 10 then [digit n] else dec_digits (n div 10) @ [digit (n mod 10)])"

declare dec_digits.simps [simp del]

text \<open>
  \<^verbatim>\<open>f"{x:.2f}"\<close>: the value rounded to hundredths, ties to the even neighbour, a
  sign for a negative value, all integer digits and exactly two fractional digits.
\<close>

definition round_half_even :: "real \<Rightarrow> int" where
  "round_half_even y =
     (let f = \<lfloor>y\<rfloor>; r = y - real_of_int f
      in if r < 1 / 2 then f else if 1 / 2 < r then f + 1 else if even f then f else f + 1)"

definition format_2f :: "real \<Rightarrow> string" where
  "format_2f x =
     (let n = nat (round_half_even (\<bar>x\<bar> * 100))
      in (if x < 0 then ''-'' else []) @ dec_digits (n div 100) @ ''.'' @
         [digit (n mod 100 div 10), digit (n mod 10)])"

text \<open>
  \<^verbatim>\<open>str(x)\<close> of an \<^verbatim>\<open>np.float32\<close>, which is what the minimum, the maximum and
  the difference of the per-slice values are. A float32 has 24 significant bits: \<open>float32\<close>
  rounds a real number to the nearest one, ties to the even mantissa (values beyond the
  largest float32 are not modelled). \<open>ilog\<close> is the floor of a logarithm, by repeated
  division, and \<open>pow_int\<close> a power with an integer exponent.
\<close>

fun ilog :: "nat \<Rightarrow> real \<Rightarrow> real \<Rightarrow> int" where
  "ilog 0 b a = 0"
| "ilog (Suc fuel) b a =
     (if b \<le> a then ilog fuel b (a / b) + 1
      else if a < 1 then ilog fuel b (a * b) - 1
      else 0)"

definition pow_int :: "real \<Rightarrow> int \<Rightarrow> real" where
  "pow_int b e = (if 0 \<le> e then b ^ nat e else 1 / b ^ nat (- e))"

definition float32_exponent :: "real \<Rightarrow> int" where
  "float32_exponent a = max (ilog 400 2 a) (- 126)"

definition float32_quantum :: "real \<Rightarrow> real" where
  "float32_quantum a = pow_int 2 (float32_exponent a - 23)"

definition float32 :: "real \<Rightarrow> real" where
  "float32 x =
     (if x = 0 then 0
      else let q = float32_quantum \<bar>x\<bar>
           in sgn x * real_of_int (round_half_even (\<bar>x\<bar> / q)) * q)"

text \<open>
  NumPy prints the shortest decimal that identifies the float32 among its neighbours. It
  produces the digits of \<open>v\<close> one at a time, from the position \<open>p\<close> of the leading digit
  downwards, and stops as soon as the digits so far (\<open>low\<close>), or the digits so far with the
  last one raised by one (\<open>high\<close>), lie within half the distance to the neighbouring float
  below (\<open>ml\<close>) or above (\<open>mh\<close>); a decimal exactly half way counts when the mantissa is
  even. The result is the integer of the digits and the position of the last digit.
\<close>

fun shortest_digits :: "nat \<Rightarrow> real \<Rightarrow> real \<Rightarrow> real \<Rightarrow> bool \<Rightarrow> int \<Rightarrow> int \<times> int" where
  "shortest_digits 0 v ml mh ev p = (round_half_even (v / pow_int 10 p), p)"
| "shortest_digits (Suc fuel) v ml mh ev p =
     (let s = pow_int 10 p;
          t = \<lfloor>v / s\<rfloor>;
          rem = v - real_of_int t * s;
          low = (rem < ml \<or> (ev \<and> rem = ml));
          high = (s - rem < mh \<or> (ev \<and> s - rem = mh))
      in if low \<and> high then
           (if 2 * rem < s then t else if s < 2 * rem then t + 1
            else if even t then t else t + 1, p)
         else if low then (t, p)
         else if high then (t + 1, p)
         else shortest_digits fuel v ml mh ev (p - 1))"

function int_digits :: "int \<Rightarrow> string" where
  "int_digits n =
     (if n < 10 then [digit (nat n)] else int_digits (n div 10) @ [digit (nat (n mod 10))])"
  by pat_completeness auto
termination
  by (relation "measure nat") auto

declare int_digits.simps [simp del]

definition strip_zeros :: "string \<Rightarrow> string" where
  "strip_zeros s = rev (dropWhile (\<lambda>c. c = CHR ''0'') (rev s))"

definition pad_zeros :: "nat \<Rightarrow> string \<Rightarrow> string" where
  "pad_zeros w s = replicate (w - length s) (CHR ''0'') @ s"

text \<open>
  The digits \<open>n\<close> with the last one at position \<open>p\<close>, in positional notation with at least
  one fractional digit (\<^verbatim>\<open>10.0\<close>, \<^verbatim>\<open>3.3333333\<close>) and in exponent notation with at
  least two digits of exponent (\<^verbatim>\<open>1e+16\<close>, \<^verbatim>\<open>1.5e-05\<close>); trailing zeros are dropped.
\<close>

definition positional :: "int \<Rightarrow> int \<Rightarrow> string" where
  "positional n p =
     (if 0 \<le> p then int_digits (n * 10 ^ nat p) @ ''.0''
      else let w = nat (- p);
               fr = strip_zeros (pad_zeros w (int_digits (n mod 10 ^ w)))
           in int_digits (n div 10 ^ w) @ ''.'' @ (if fr = [] then ''0'' else fr))"

definition scientific :: "int \<Rightarrow> int \<Rightarrow> string" where
  "scientific n p =
     (let ds = int_digits n;
          e = p + int (length ds) - 1;
          fr = strip_zeros (tl ds)
      in take 1 ds @ (if fr = [] then [] else ''.'' @ fr) @ ''e'' @
         (if e < 0 then ''-'' else ''+'') @ pad_zeros 2 (int_digits \<bar>e\<bar>))"

text \<open>
  \<^verbatim>\<open>str\<close> of the float32 nearest to \<open>x\<close>: positional notation for magnitudes from
  \<open>10\<^sup>-\<^sup>4\<close> up to \<open>10\<^sup>1\<^sup>6\<close> and for zero, exponent notation otherwise. The margin below is
  half as wide when the float is a power of two. A value that rounds to \<open>2\<^sup>1\<^sup>2\<^sup>8\<close> is beyond the
  largest float32 and is the infinity; a negative value that rounds to zero is the negative
  zero.
\<close>

definition py_str :: "real \<Rightarrow> string" where
  "py_str x =
     (let v = float32 x; a = \<bar>v\<bar> in
      if v = 0 then (if x < 0 then ''-0.0'' else ''0.0'')
      else if 2 ^ 128 \<le> a then (if v < 0 then ''-inf'' else ''inf'')
      else
        let e = float32_exponent a;
            q = float32_quantum a;
            m = \<lfloor>a / q\<rfloor>;
            mh = q / 2;
            ml = (if m = 2 ^ 23 \<and> - 126 < e then q / 4 else q / 2);
            (n, p) = shortest_digits 17 a ml mh (even m) (ilog 400 10 a)
        in (if v < 0 then ''-'' else []) @
           (if 1 / 10 ^ 4 \<le> a \<and> a < 10 ^ 16 then positional n p else scientific n p))"

subsection \<open>\<^verbatim>\<open>save_roi\<close>: the registry\<close>

text \<open>
  The cell of one slice:
  \<^verbatim>\<open>f"{roi_val:.2f}" if not np.isnan(roi_val) else "NaN"\<close>.
\<close>

fun roi_val_str :: "fval \<Rightarrow> string" where
  "roi_val_str (Num v) = format_2f v"
| "roi_val_str NaN = ''NaN''"

text \<open>
  What \<^verbatim>\<open>save_roi\<close> does with the list of values once the loop has ended: it
  stores the list under the name, redraws the plot (which shows \<open>roi_data\<close> and has
  no state of its own), takes the minimum and the maximum of the values that are not
  \<open>NaN\<close> (the builtin \<^verbatim>\<open>min\<close> raises \<^verbatim>\<open>ValueError\<close> on an empty sequence) and
  appends one row to the table.
\<close>

definition register_roi :: "viewer \<Rightarrow> string \<Rightarrow> fval list \<Rightarrow> outcome \<times> viewer" where
  "register_roi st roi_name vals =
     (let st1 = st\<lparr>roi_data := (roi_data st)(roi_name \<mapsto> vals)\<rparr>;
          defined = not_nan vals
      in if defined = [] then (Raised ValueError, st1)
         else
           let min_val = np_min defined; max_val = np_max defined; diff = max_val - min_val;
               row = [roi_name, py_str min_val, py_str max_val, py_str diff] @ map roi_val_str vals
           in (Information (ROI_Saved roi_name), st1\<lparr>roi_table := roi_table st1 @ [row]\<rparr>))"

definition save_roi :: "viewer \<Rightarrow> outcome \<times> viewer" where
  "save_roi st =
     (if \<not> overlay_checkbox st then (Warning ROI_Hidden, st)
      else
        let roi_name = py_strip (roi_name_input st) in
        if roi_name = [] then (Warning Invalid_Name, st)
        else if out_of_bounds st then (Warning ROI_Out_of_Bounds, st)
        else register_roi st roi_name (roi_values st))"

subsection \<open>\<^verbatim>\<open>save_to_csv\<close>\<close>

text \<open>
  The handler reads the text of every cell of the table, builds a data frame with the
  headers and writes it with \<^verbatim>\<open>to_csv(file_name, index=False)\<close>. The model returns
  the lines of the file. A field is quoted only when it holds a comma, a quote or a line
  break; \<open>file_name\<close> is what the file dialog returned, empty when it was cancelled.
\<close>

fun join :: "string \<Rightarrow> string list \<Rightarrow> string" where
  "join sep [] = []"
| "join sep [x] = x"
| "join sep (x # y # ys) = x @ sep @ join sep (y # ys)"

definition csv_field :: "string \<Rightarrow> string" where
  "csv_field s =
     (if list_ex (\<lambda>c. c \<in> set [CHR '','', CHR 0x22, CHR 0x0A, CHR 0x0D]) s
      then [CHR 0x22] @ concat (map (\<lambda>c. if c = CHR 0x22 then [c, c] else [c]) s) @ [CHR 0x22]
      else s)"

definition csv_line :: "string list \<Rightarrow> string" where
  "csv_line cells = join '','' (map csv_field cells)"

definition csv_headers :: "viewer \<Rightarrow> string list" where
  "csv_headers st =
     [''Name'', ''Min Value'', ''Max Value'', ''Difference''] @
     map (\<lambda>i. ''Slice'' @ dec_digits i) [0..<length (images st)]"

definition save_to_csv :: "viewer \<Rightarrow> string \<Rightarrow> outcome \<times> string list option" where
  "save_to_csv st file_name =
     (if roi_table st = [] then (Warning No_Data, None)
      else if file_name = [] then (Silent, None)
      else (Information (Save_Successful file_name),
            Some (map csv_line (csv_headers st # roi_table st))))"

subsection \<open>\<^verbatim>\<open>display_slice\<close>\<close>

definition subtract_frames :: "frame \<Rightarrow> frame \<Rightarrow> frame" where
  "subtract_frames a b = map2 (\<lambda>ra rb. map2 (\<lambda>p q. p - q) ra rb) a b"

text \<open>\<^verbatim>\<open>np.clip(a, lower, upper)\<close> is \<^verbatim>\<open>minimum(maximum(a, lower), upper)\<close>.\<close>

definition np_clip :: "real \<Rightarrow> real \<Rightarrow> real \<Rightarrow> real" where
  "np_clip p lower upper = min (max p lower) upper"

text \<open>
  \<^verbatim>\<open>astype(np.uint8)\<close> drops the fraction and keeps the low eight bits of the integer.
\<close>

definition astype_uint8 :: "real \<Rightarrow> int" where
  "astype_uint8 x = py_int x mod 256"

text \<open>The lines from \<^verbatim>\<open># Apply window and level\<close> to the cast, on one pixel.\<close>

definition window_level_pixel :: "real \<Rightarrow> real \<Rightarrow> real \<Rightarrow> int" where
  "window_level_pixel window level p =
     (let lower = level - window / 2;
          upper = level + window / 2;
          clipped = np_clip p lower upper;
          normalized = (if upper - lower \<noteq> 0 then (clipped - lower) / (upper - lower) * 255
                        else clipped - lower)
      in astype_uint8 normalized)"

definition window_level_image :: "real \<Rightarrow> real \<Rightarrow> frame \<Rightarrow> int list list" where
  "window_level_image window level current_image =
     map (\<lambda>row. map (window_level_pixel window level) row) current_image"

text \<open>The frame that \<^verbatim>\<open>display_slice\<close> shows: the current one, less the chosen one.\<close>

definition displayed_frame :: "viewer \<Rightarrow> frame" where
  "displayed_frame st =
     (let subtraction_index = subtraction_combo st - 1 in
      if subtraction_index \<ge> 0 then
        if subtraction_index \<ge> int (length (images st)) then images st ! current_slice st
        else subtract_frames (images st ! current_slice st) (images st ! nat subtraction_index)
      else images st ! current_slice st)"

definition display_slice :: "viewer \<Rightarrow> outcome \<times> viewer" where
  "display_slice st =
     (if \<not> current_slice st < length (images st) then (Raised IndexError, st)
      else
        let window = real_of_int (window_slider st);
            level = real_of_int (level_slider st)
        in (Silent, st\<lparr>pixmap_item := Some (window_level_image window level (displayed_frame st))\<rparr>))"

subsection \<open>\<^verbatim>\<open>auto_window\<close>\<close>





text \<open>
  NumPy has no percentile of an empty array; a stack that was loaded has no empty frame.
\<close>


subsection \<open>Notions of the specification\<close>

text \<open>
  The bounding box of the specification, \<open>[c - r, c + r)\<close> on each axis with both ends
  truncated to integers, exceeds the frame when an end falls outside \<open>[0, width]\<close> or
  \<open>[0, height]\<close>.
\<close>

definition bbox_exceeds :: "viewer \<Rightarrow> bool" where
  "bbox_exceeds st \<longleftrightarrow>
     py_int (fst (roi_pos st) - radius_of st) < 0 \<or>
     py_int (snd (roi_pos st) - radius_of st) < 0 \<or>
     py_int (fst (roi_pos st) + radius_of st) > int (image_width st) \<or>
     py_int (snd (roi_pos st) + radius_of st) > int (image_height st)"

text \<open>The Euclidean distance of two points of the plane.\<close>

definition euclidean :: "real \<times> real \<Rightarrow> real \<times> real \<Rightarrow> real" where
  "euclidean p q = sqrt ((fst p - fst q)\<^sup>2 + (snd p - snd q)\<^sup>2)"

text \<open>The number of pixels that the mask of a diameter selects.\<close>

definition mask_count :: "int \<Rightarrow> nat" where
  "mask_count d = length (filter id (concat (circular_mask d (real_of_int d / 2))))"

text \<open>
  The area of a disc of radius \<open>r\<close>, for the comparison with the number of pixels: the
  chord of the disc at the distance \<open>t\<close> from the centre, the area between the chords at 0
  and at \<open>t\<close> doubled (an antiderivative of the chord), and the variation of the chord up
  to \<open>t\<close>.
\<close>

definition chord :: "real \<Rightarrow> real \<Rightarrow> real" where
  "chord r t = 2 * sqrt (r\<^sup>2 - t\<^sup>2)"

definition segment_area :: "real \<Rightarrow> real \<Rightarrow> real" where
  "segment_area r t = t * sqrt (r\<^sup>2 - t\<^sup>2) + r\<^sup>2 * arcsin (t / r)"

definition variation :: "real \<Rightarrow> real \<Rightarrow> real" where
  "variation r t = (if t \<le> 0 then chord r t else 4 * r - chord r t)"

text \<open>
  A text with exactly two decimal places: digits (after an optional sign), a point, two
  digits.
\<close>

definition is_digit :: "char \<Rightarrow> bool" where
  "is_digit c \<longleftrightarrow> c \<in> set ''0123456789''"

definition two_decimals :: "string \<Rightarrow> bool" where
  "two_decimals s =
     (case rev s of
        b # a # p # ds \<Rightarrow>
          is_digit b \<and> is_digit a \<and> p = CHR ''.'' \<and> ds \<noteq> [] \<and> CHR ''.'' \<notin> set ds
      | _ \<Rightarrow> False)"

text \<open>
  A text of digits, points, signs and the letters of the exponent and of \<^verbatim>\<open>inf\<close> only,
  which the CSV writer never quotes.
\<close>

definition plain :: "string \<Rightarrow> bool" where
  "plain s \<longleftrightarrow> list_all (\<lambda>c. is_digit c \<or> c \<in> set ''.-+einf'') s"

subsection \<open>A small stack\<close>

text \<open>
  Three frames of two by two pixels, the ROI of diameter 2 centred on the frame, and the
  same viewer with frame 0 chosen for subtraction, with the smallest diameter, and (with
  one frame of 256 by 256 pixels) with the ROI of diameter 50 at (10, 128).
\<close>

definition demo :: viewer where
  "demo = \<lparr>images = [[[10, 10], [10, 10]], [[1, 2], [3, 4]], [[30, 30], [30, 30]]],
           image_height = 2, image_width = 2, current_slice = 1,
           window_slider = 128, level_slider = 128, subtraction_combo = 0,
           overlay_checkbox = True, roi_pos = (1, 1), roi_diameter = 2,
           roi_name_input = ''Bone'', roi_data = Map.empty, roi_table = [],
           pixmap_item = None\<rparr>"

definition demo_sub :: viewer where
  "demo_sub = demo\<lparr>subtraction_combo := 1\<rparr>"

definition demo_one :: viewer where
  "demo_one = demo\<lparr>roi_diameter := 1\<rparr>"

definition demo_256 :: viewer where
  "demo_256 = demo\<lparr>images := [replicate 256 (replicate 256 0)],
                    image_height := 256, image_width := 256, current_slice := 0,
                    roi_pos := (10, 128), roi_diameter := 50\<rparr>"

text \<open>
  The small stack with a registry that already holds the name: an ROI saved as 'Bone' at
  another place.
\<close>

definition demo_named :: viewer where
  "demo_named = demo\<lparr>roi_data := [''Bone'' \<mapsto> [Num 1, Num 2, Num 3]],
      roi_table := [[''Bone'', ''1.0'', ''3.0'', ''2.0'', ''1.00'', ''2.00'', ''3.00'']]\<rparr>"

section \<open>Properties\<close>

subsection \<open>The mask\<close>

lemma mask_at_sq:
  "0 \<le> r \<Longrightarrow> mask_at r Y X \<longleftrightarrow> (real X - r)\<^sup>2 + (real Y - r)\<^sup>2 \<le> r\<^sup>2"
  unfolding mask_at_def dist_from_center_def
  by (metis real_sqrt_le_iff real_sqrt_abs abs_of_nonneg)

lemma circular_mask_one: "circular_mask 1 (1 / 2) = [[False]]"
  by (simp add: circular_mask_def mask_at_sq power2_eq_square)

lemma bool_index_no_True: "bool_index a [[False]] = []"
proof (cases a)
  case Nil
  then show ?thesis by (simp add: bool_index_def)
next
  case (Cons row rest)
  then show ?thesis by (cases row) (simp_all add: bool_index_def)
qed

lemma masked_roi_one: "roi_diameter st = 1 \<Longrightarrow> masked_roi st f = []"
  by (simp add: masked_roi_def radius_of_def circular_mask_one bool_index_no_True)

lemma roi_values_one:
  "roi_diameter st = 1 \<Longrightarrow> roi_values st = replicate (length (images st)) NaN"
  unfolding roi_values_def
  by (rule nth_equalityI) (simp_all add: roi_value_def masked_roi_one)

lemma mask_at_middle:
  assumes "2 \<le> d"
  shows "mask_at (real_of_int d / 2) (nat (d div 2)) (nat (d div 2))"
proof -
  define r where "r = real_of_int d / 2"
  define e where "e = real (nat (d div 2)) - r"
  have k: "real (nat (d div 2)) = real_of_int (d div 2)" using assms by simp
  have "d = 2 * (d div 2) \<or> d = 2 * (d div 2) + 1" by presburger
  then have "e = 0 \<or> e = - (1 / 2)"
  proof
    assume "d = 2 * (d div 2)"
    then have "real_of_int d = 2 * real_of_int (d div 2)" by (metis of_int_mult of_int_numeral)
    then show ?thesis using k by (simp add: e_def r_def)
  next
    assume "d = 2 * (d div 2) + 1"
    then have "real_of_int d = 2 * real_of_int (d div 2) + 1"
      by (metis of_int_mult of_int_numeral of_int_add of_int_1)
    then show ?thesis using k by (simp add: e_def r_def field_simps)
  qed
  then have "e\<^sup>2 \<le> 1 / 4" by (auto simp: power2_eq_square)
  moreover have "1 \<le> r" using assms by (simp add: r_def)
  then have "1 * 1 \<le> r * r" by (intro mult_mono) simp_all
  then have "1 \<le> r\<^sup>2" by (simp add: power2_eq_square)
  ultimately have "e\<^sup>2 + e\<^sup>2 \<le> r\<^sup>2" by linarith
  moreover have "0 \<le> r" using assms by (simp add: r_def)
  ultimately show ?thesis by (simp add: mask_at_sq e_def r_def)
qed

lemma bool_index_nonempty:
  assumes "i < length a" "i < length msk" "j < length (a ! i)" "j < length (msk ! i)"
    and "msk ! i ! j"
  shows "bool_index a msk \<noteq> []"
proof -
  let ?f = "\<lambda>row mrow. map fst (filter snd (zip row mrow))"
  have "(a ! i ! j, msk ! i ! j) \<in> set (zip (a ! i) (msk ! i))"
    using assms(3,4) by (metis in_set_zip fst_conv snd_conv)
  with assms(5) have "filter snd (zip (a ! i) (msk ! i)) \<noteq> []"
    by (metis (mono_tags, lifting) filter_empty_conv snd_conv)
  then have ne: "?f (a ! i) (msk ! i) \<noteq> []" by simp
  have "map2 ?f a msk ! i = ?f (a ! i) (msk ! i)" using assms(1,2) by simp
  moreover have "i < length (map2 ?f a msk)" using assms(1,2) by simp
  ultimately have "?f (a ! i) (msk ! i) \<in> set (map2 ?f a msk)" by (metis nth_mem)
  with ne have "\<exists>xs\<in>set (map2 ?f a msk). xs \<noteq> []" by blast
  then show ?thesis unfolding bool_index_def concat_eq_Nil_conv by blast
qed

lemma length_slice2: "y + d \<le> length a \<Longrightarrow> length (slice2 a y x d) = d"
  by (simp add: slice2_def)

lemma length_slice2_row:
  assumes "y + d \<le> length a" "i < d" "x + d \<le> length (a ! (y + i))"
  shows "length (slice2 a y x d ! i) = d"
  using assms by (simp add: slice2_def)


lemma circular_mask_nth:
  "Y < nat d \<Longrightarrow> X < nat d \<Longrightarrow> circular_mask d r ! Y ! X = mask_at r Y X"
  by (simp add: circular_mask_def)

lemma length_circular_mask: "length (circular_mask d r) = nat d"
  by (simp add: circular_mask_def)

lemma length_circular_mask_row: "Y < nat d \<Longrightarrow> length (circular_mask d r ! Y) = nat d"
  by (simp add: circular_mask_def)

lemma masked_roi_nonempty:
  assumes len: "length f = image_height st"
    and rows: "list_all (\<lambda>row. length row = image_width st) f"
    and inb: "\<not> out_of_bounds st"
    and d2: "2 \<le> roi_diameter st"
  shows "masked_roi st f \<noteq> []"
proof -
  define d where "d = nat (roi_diameter st)"
  define y where "y = nat (y_start st)"
  define x where "x = nat (x_start st)"
  define k where "k = nat (roi_diameter st div 2)"
  have kd: "k < d" using d2 unfolding k_def d_def by linarith
  have yb: "y + d \<le> length f"
    using inb d2 len unfolding out_of_bounds_def y_def d_def by linarith
  have xb: "x + d \<le> image_width st"
    using inb d2 unfolding out_of_bounds_def x_def d_def by linarith
  have "y + k < length f" using kd yb by simp
  then have "f ! (y + k) \<in> set f" by (rule nth_mem)
  with rows have "length (f ! (y + k)) = image_width st" by (simp add: list_all_iff)
  with xb have rowlen: "x + d \<le> length (f ! (y + k))" by simp
  have "bool_index (slice2 f y x d) (circular_mask (roi_diameter st) (radius_of st)) \<noteq> []"
  proof (rule bool_index_nonempty [where i = k and j = k])
    show "k < length (slice2 f y x d)" using kd yb by (simp add: length_slice2)
    show "k < length (circular_mask (roi_diameter st) (radius_of st))"
      using kd by (simp add: length_circular_mask d_def)
    show "k < length (slice2 f y x d ! k)"
      using kd yb rowlen by (simp add: length_slice2_row)
    show "k < length (circular_mask (roi_diameter st) (radius_of st) ! k)"
      using kd by (simp add: length_circular_mask_row d_def)
    show "circular_mask (roi_diameter st) (radius_of st) ! k ! k"
      using kd d2 mask_at_middle [of "roi_diameter st"]
      by (simp add: circular_mask_nth d_def k_def radius_of_def)
  qed
  then show ?thesis by (simp add: masked_roi_def d_def y_def x_def)
qed

subsection \<open>Aggregates, the bounding box and the window\<close>

lemma np_min_Min: "xs \<noteq> [] \<Longrightarrow> np_min xs = Min (set xs)"
  by (cases xs) (simp_all add: Min.set_eq_fold [symmetric])

lemma np_max_Max: "xs \<noteq> [] \<Longrightarrow> np_max xs = Max (set xs)"
  by (cases xs) (simp_all add: Max.set_eq_fold [symmetric])

lemma set_not_nan: "set (not_nan vs) = {x. Num x \<in> set vs}"
  by (induction vs rule: not_nan.induct) auto

lemma py_int_shift:
  assumes "0 \<le> d" "0 \<le> py_int a"
  shows "py_int (a + real_of_int d) \<le> py_int a + d"
proof (cases "0 \<le> a")
  case True
  with assms show ?thesis by (simp add: py_int_def)
next
  case False
  then have "\<lceil>a\<rceil> \<le> 0" by (simp add: ceiling_le_iff)
  moreover have "py_int a = \<lceil>a\<rceil>" using False by (simp add: py_int_def)
  ultimately have c0: "py_int a = 0" using assms(2) by linarith
  show ?thesis
  proof (cases "0 \<le> a + real_of_int d")
    case True
    have "a + real_of_int d < real_of_int d" using False by simp
    then have "\<lfloor>a + real_of_int d\<rfloor> < d" by (simp add: floor_less_iff)
    with True c0 show ?thesis by (simp add: py_int_def)
  next
    case neg: False
    then have "a + real_of_int d \<le> real_of_int 0" by simp
    then have "\<lceil>a + real_of_int d\<rceil> \<le> 0" by (simp only: ceiling_le_iff)
    moreover have "py_int (a + real_of_int d) = \<lceil>a + real_of_int d\<rceil>"
      by (simp only: py_int_def neg if_False)
    ultimately show ?thesis using c0 assms(1) by linarith
  qed
qed

lemma bbox_exceeds_out_of_bounds:
  assumes "0 \<le> roi_diameter st" "bbox_exceeds st"
  shows "out_of_bounds st"
proof (rule ccontr)
  assume inb: "\<not> out_of_bounds st"
  then have x0: "0 \<le> x_start st" and y0: "0 \<le> y_start st"
    and xw: "x_start st + roi_diameter st \<le> int (image_width st)"
    and yh: "y_start st + roi_diameter st \<le> int (image_height st)"
    by (simp_all add: out_of_bounds_def)
  have sx: "fst (roi_pos st) + radius_of st = (fst (roi_pos st) - radius_of st) + real_of_int (roi_diameter st)"
    and sy: "snd (roi_pos st) + radius_of st = (snd (roi_pos st) - radius_of st) + real_of_int (roi_diameter st)"
    by (simp_all add: radius_of_def)
  have "py_int (fst (roi_pos st) + radius_of st) \<le> x_start st + roi_diameter st"
    unfolding sx x_start_def using assms(1) x0 by (intro py_int_shift) (simp_all add: x_start_def)
  moreover have "py_int (snd (roi_pos st) + radius_of st) \<le> y_start st + roi_diameter st"
    unfolding sy y_start_def using assms(1) y0 by (intro py_int_shift) (simp_all add: y_start_def)
  ultimately show False
    using assms(2) x0 y0 xw yh by (simp add: bbox_exceeds_def x_start_def y_start_def)
qed

lemma window_level_pixel_exact:
  assumes "0 < window"
  shows "window_level_pixel window level p =
           \<lfloor>(np_clip p (level - window / 2) (level + window / 2) - (level - window / 2)) / window * 255\<rfloor>
         \<and> 0 \<le> window_level_pixel window level p \<and> window_level_pixel window level p \<le> 255"
proof -
  define lower where "lower = level - window / 2"
  define upper where "upper = level + window / 2"
  define c where "c = np_clip p lower upper"
  define v where "v = (c - lower) / window * 255"
  have w: "upper - lower = window" by (simp add: lower_def upper_def)
  have lu: "lower \<le> upper" using assms w by linarith
  have c1: "lower \<le> c" and c2: "c \<le> upper" using lu by (simp_all add: c_def np_clip_def)
  have v0: "0 \<le> v" using c1 assms by (simp add: v_def)
  have "(c - lower) / window \<le> 1" using c2 w assms by (simp add: divide_le_eq_1)
  then have "(c - lower) / window * 255 \<le> 1 * 255" by (intro mult_right_mono) simp_all
  then have v255: "v \<le> 255" unfolding v_def by simp
  have f0: "0 \<le> \<lfloor>v\<rfloor>" using v0 by simp
  have f255: "\<lfloor>v\<rfloor> \<le> 255" using v255 by (simp add: floor_le_iff)
  have "window_level_pixel window level p = astype_uint8 v"
    using assms w by (simp add: window_level_pixel_def Let_def lower_def upper_def c_def v_def)
  also have "\<dots> = \<lfloor>v\<rfloor>" using v0 f0 f255 by (simp add: astype_uint8_def py_int_def)
  finally have eq: "window_level_pixel window level p = \<lfloor>v\<rfloor>" .
  show ?thesis using eq f0 f255 by (simp add: v_def c_def lower_def upper_def)
qed


subsection \<open>The smallest diameter\<close>

lemma mask_at_code [code]:
  "mask_at radius Y X \<longleftrightarrow>
     0 \<le> radius \<and> (real X - radius)\<^sup>2 + (real Y - radius)\<^sup>2 \<le> radius\<^sup>2"
proof (cases "0 \<le> radius")
  case True
  then show ?thesis by (simp add: mask_at_sq)
next
  case False
  have "0 \<le> dist_from_center radius Y X" by (simp add: dist_from_center_def)
  with False show ?thesis by (simp add: mask_at_def)
qed

lemma demo_one_fields:
  "roi_diameter demo_one = 1" "overlay_checkbox demo_one"
  "current_slice demo_one < length (images demo_one)" "length (images demo_one) = 3"
  "py_strip (roi_name_input demo_one) = ''Bone''"
  by (simp_all add: demo_one_def demo_def py_strip_def isspace_def)

lemma demo_one_in_bounds: "\<not> out_of_bounds demo_one"
  by (simp add: out_of_bounds_def x_start_def y_start_def radius_of_def py_int_def
      demo_one_def demo_def)

text \<open>
  Claim C10. With the diameter 1 the radius is 1/2 and the only candidate pixel, at
  offset (0, 0), lies at the distance \<open>sqrt (1 / 2)\<close> from the centre, which is more than
  the radius: the mask selects nothing on any frame. So \<^verbatim>\<open>analyze_roi\<close> (with the
  overlay shown and the box inside the frame) warns of an empty mask and changes nothing,
  and the loop of \<^verbatim>\<open>save_roi\<close> records \<open>NaN\<close> for every slice of the stack.
\<close>

theorem diameter_one_mask_empty:
  assumes "roi_diameter st = 1"
  shows "dist_from_center (radius_of st) 0 0 = sqrt (1 / 2)
       \<and> radius_of st < dist_from_center (radius_of st) 0 0
       \<and> circular_mask (roi_diameter st) (radius_of st) = [[False]]
       \<and> masked_roi st f = []
       \<and> roi_values st = replicate (length (images st)) NaN
       \<and> (overlay_checkbox st \<and> \<not> out_of_bounds st \<and> current_slice st < length (images st)
            \<longrightarrow> analyze_roi st = (Warning Empty_ROI, st))"
proof -
  have r: "radius_of st = 1 / 2" using assms by (simp add: radius_of_def)
  have d: "dist_from_center (radius_of st) 0 0 = sqrt (1 / 2)"
    by (simp add: r dist_from_center_def power2_eq_square)
  have "(1 / 2 :: real)\<^sup>2 < 1 / 2" by (simp add: power2_eq_square)
  then have "(1 / 2 :: real) < sqrt (1 / 2)" by (rule real_less_rsqrt)
  with d r have lt: "radius_of st < dist_from_center (radius_of st) 0 0" by linarith
  have m: "circular_mask (roi_diameter st) (radius_of st) = [[False]]"
    using assms by (simp only: r circular_mask_one)
  have e: "masked_roi st g = []" for g using assms by (rule masked_roi_one)
  have a: "analyze_roi st = (Warning Empty_ROI, st)"
    if "overlay_checkbox st" "\<not> out_of_bounds st" "current_slice st < length (images st)"
    using that by (simp add: analyze_roi_def e)
  show ?thesis using d lt m e a roi_values_one [OF assms] by blast
qed

text \<open>
  The smallest ROI on the small stack.
\<close>

theorem diameter_one_mask_empty_witness:
  "roi_diameter demo_one = 1
   \<and> analyze_roi demo_one = (Warning Empty_ROI, demo_one)
   \<and> roi_values demo_one = [NaN, NaN, NaN]
   \<and> masked_roi demo_one [[1, 2], [3, 4]] = []"
  using diameter_one_mask_empty [of demo_one "[[1, 2], [3, 4]]"] demo_one_fields demo_one_in_bounds
  by (simp add: numeral_3_eq_3)

text \<open>
  Claim C1. The specification wants a save whose slices are all undefined to be reported
  and to leave the registry as it was. On the small stack with the diameter 1 every slice
  is undefined; \<^verbatim>\<open>save_roi\<close> has then already stored the name in \<open>roi_data\<close>
  when \<^verbatim>\<open>min\<close> raises \<^verbatim>\<open>ValueError\<close> on the empty sequence. No dialog is
  opened and no row is added to the table.
\<close>

theorem save_roi_all_undefined:
  "roi_values demo_one = [NaN, NaN, NaN]
   \<and> fst (save_roi demo_one) = Raised ValueError
   \<and> roi_data demo_one ''Bone'' = None
   \<and> roi_data (snd (save_roi demo_one)) ''Bone'' = Some [NaN, NaN, NaN]
   \<and> roi_table (snd (save_roi demo_one)) = roi_table demo_one"
  by code_simp

subsection \<open>Out of bounds\<close>

text \<open>
  Claim C4. When the bounding box, with its ends truncated to integers, exceeds the frame
  on the left, on the top, on the right or at the bottom, both handlers leave the state as
  it was, and what they report is the warning that the ROI is out of bounds (once the
  earlier checks have passed: the overlay is shown and, for a save, the name is not
  empty). The hypothesis covers the box as the specification writes it and the box as the
  code computes it, \<open>[x_start, x_start + diameter)\<close>.
\<close>

theorem out_of_bounds_rejected:
  assumes "1 \<le> roi_diameter st" and "bbox_exceeds st \<or> out_of_bounds st"
  shows "snd (analyze_roi st) = st \<and> snd (save_roi st) = st
       \<and> (overlay_checkbox st \<longrightarrow> analyze_roi st = (Warning ROI_Out_of_Bounds, st))
       \<and> (overlay_checkbox st \<and> py_strip (roi_name_input st) \<noteq> []
            \<longrightarrow> save_roi st = (Warning ROI_Out_of_Bounds, st))"
proof -
  have "out_of_bounds st" using assms bbox_exceeds_out_of_bounds [of st] by auto
  then show ?thesis by (simp add: analyze_roi_def save_roi_def Let_def)
qed

lemma demo_256_fields:
  "roi_diameter demo_256 = 50" "overlay_checkbox demo_256"
  "py_strip (roi_name_input demo_256) = ''Bone''"
  "image_height demo_256 = 256" "image_width demo_256 = 256" "roi_pos demo_256 = (10, 128)"
  by (simp_all add: demo_256_def demo_def py_strip_def isspace_def)

lemma demo_256_exceeds: "bbox_exceeds demo_256"
  by (simp add: bbox_exceeds_def radius_of_def py_int_def demo_256_fields)

text \<open>
  The frame of 256 by 256 pixels with the ROI of diameter 50 at (10, 128).
\<close>

theorem out_of_bounds_rejected_witness:
  "bbox_exceeds demo_256
   \<and> analyze_roi demo_256 = (Warning ROI_Out_of_Bounds, demo_256)
   \<and> save_roi demo_256 = (Warning ROI_Out_of_Bounds, demo_256)"
  using out_of_bounds_rejected [of demo_256] demo_256_exceeds demo_256_fields
  by simp

subsection \<open>The display transform\<close>

text \<open>
  Claim C5. For a window above 0 the normalised value of every pixel lies between 0 and
  255, so the cast to eight bits is the floor of that value and wraps nothing: every pixel
  of the output is an integer from 0 to 255. This holds for every frame, level and window,
  and so for what \<^verbatim>\<open>display_slice\<close> shows when the window slider is above 0.
\<close>

theorem display_transform_range:
  assumes "0 < window"
  shows "list_all (list_all (\<lambda>px. 0 \<le> px \<and> px \<le> 255)) (window_level_image window level frame)
       \<and> window_level_image window level frame =
           map (map (\<lambda>p. \<lfloor>(np_clip p (level - window / 2) (level + window / 2)
                               - (level - window / 2)) / window * 255\<rfloor>)) frame
       \<and> (window = real_of_int (window_slider st) \<and> current_slice st < length (images st)
            \<longrightarrow> (\<exists>img. pixmap_item (snd (display_slice st)) = Some img
                       \<and> list_all (list_all (\<lambda>px. 0 \<le> px \<and> px \<le> 255)) img))"
proof -
  have px: "0 \<le> window_level_pixel window l p \<and> window_level_pixel window l p \<le> 255"
    for l p
    using window_level_pixel_exact [OF assms] by blast
  have rng: "list_all (list_all (\<lambda>px. 0 \<le> px \<and> px \<le> 255)) (window_level_image window l f)"
    for l f
    by (simp add: window_level_image_def list_all_iff px)
  have eq: "window_level_pixel window l p =
        \<lfloor>(np_clip p (l - window / 2) (l + window / 2) - (l - window / 2)) / window * 255\<rfloor>"
    for l p
    using window_level_pixel_exact [OF assms] by blast
  have ex: "window_level_image window level frame =
           map (map (\<lambda>p. \<lfloor>(np_clip p (level - window / 2) (level + window / 2)
                               - (level - window / 2)) / window * 255\<rfloor>)) frame"
  proof -
    have "window_level_pixel window level =
        (\<lambda>p. \<lfloor>(np_clip p (level - window / 2) (level + window / 2)
                 - (level - window / 2)) / window * 255\<rfloor>)"
      by (rule ext) (rule eq)
    then show ?thesis by (simp only: window_level_image_def)
  qed
  have disp: "\<exists>img. pixmap_item (snd (display_slice st)) = Some img
                \<and> list_all (list_all (\<lambda>px. 0 \<le> px \<and> px \<le> 255)) img"
    if "window = real_of_int (window_slider st) \<and> current_slice st < length (images st)"
    using that rng by (simp add: display_slice_def Let_def)
  show ?thesis
  proof (intro conjI impI)
    show "list_all (list_all (\<lambda>px. 0 \<le> px \<and> px \<le> 255)) (window_level_image window level frame)"
      by (rule rng)
    show "window_level_image window level frame =
           map (map (\<lambda>p. \<lfloor>(np_clip p (level - window / 2) (level + window / 2)
                               - (level - window / 2)) / window * 255\<rfloor>)) frame"
      by (rule ex)
    assume "window = real_of_int (window_slider st) \<and> current_slice st < length (images st)"
    then show "\<exists>img. pixmap_item (snd (display_slice st)) = Some img
                \<and> list_all (list_all (\<lambda>px. 0 \<le> px \<and> px \<le> 255)) img"
      by (rule disp)
  qed
qed

lemma display_slice_demo:
  "pixmap_item (snd (display_slice (demo\<lparr>window_slider := 3, level_slider := 2\<rparr>)))
     = Some [[42, 127], [212, 255]]"
  by code_simp

text \<open>
  A window of 3 around the level 2.
\<close>

theorem display_transform_range_witness:
  "(0::real) < 3
   \<and> window_level_image 3 2 [[1, 2], [3, 4]] = [[42, 127], [212, 255]]
   \<and> list_all (list_all (\<lambda>px. 0 \<le> px \<and> px \<le> 255)) (window_level_image 3 2 [[1, 2], [3, 4]])
   \<and> pixmap_item (snd (display_slice (demo\<lparr>window_slider := 3, level_slider := 2\<rparr>)))
       = Some [[42, 127], [212, 255]]"
  using display_transform_range [of 3 2 "[[1, 2], [3, 4]]" demo] display_slice_demo
  by (simp add: np_clip_def)


subsection \<open>The small stack\<close>



lemma demo_roi_values: "roi_values demo = [Num 10, Num 3, Num 30]"
  by code_simp

subsection \<open>Statistics and subtraction\<close>

lemma out_of_bounds_subtraction [simp]:
  "out_of_bounds (st\<lparr>subtraction_combo := k\<rparr>) = out_of_bounds st"
  by (simp add: out_of_bounds_def x_start_def y_start_def radius_of_def)

lemma masked_roi_subtraction [simp]:
  "masked_roi (st\<lparr>subtraction_combo := k\<rparr>) f = masked_roi st f"
  by (simp add: masked_roi_def x_start_def y_start_def radius_of_def)

lemma roi_values_subtraction [simp]:
  "roi_values (st\<lparr>subtraction_combo := k\<rparr>) = roi_values st"
  by (simp add: roi_values_def roi_value_def)

text \<open>
  Claim C3, as amended. Neither \<^verbatim>\<open>analyze_roi\<close> nor \<^verbatim>\<open>save_roi\<close> reads the
  subtraction choice: whatever frame is chosen for subtraction, the analysis reports the
  same values, the loop of the save records the same value for every slice and the
  registry gets the same entry. The statistics are those of the frames as loaded;
  subtraction is applied by \<^verbatim>\<open>display_slice\<close> and \<^verbatim>\<open>auto_window\<close> only.
\<close>

theorem roi_statistics_ignore_subtraction:
  "analyze_roi (st\<lparr>subtraction_combo := k\<rparr>) = (fst (analyze_roi st), st\<lparr>subtraction_combo := k\<rparr>)
   \<and> roi_values (st\<lparr>subtraction_combo := k\<rparr>) = roi_values st
   \<and> save_roi (st\<lparr>subtraction_combo := k\<rparr>)
       = (fst (save_roi st), (snd (save_roi st))\<lparr>subtraction_combo := k\<rparr>)"
  by (simp add: analyze_roi_def save_roi_def register_roi_def Let_def)

text \<open>
  The small stack with and without frame 0 chosen for subtraction.
\<close>

theorem roi_statistics_ignore_subtraction_witness:
  "fst (analyze_roi demo_sub) = fst (analyze_roi demo)
   \<and> roi_values demo_sub = roi_values demo
   \<and> fst (save_roi demo_sub) = fst (save_roi demo)"
  using roi_statistics_ignore_subtraction [where st = demo and k = 1]
  by (simp add: demo_sub_def)

text \<open>
  Claim C3 as stated fails. Frame 0 is chosen for subtraction and slice 1 is current; the
  difference image has the masked pixels -8, -7, -6, but the analysis reports the maximum
  4 and the minimum 2 of the frame as loaded, and the save records the means 10, 3, 30 of
  the frames as loaded.
\<close>

theorem roi_statistics_on_difference_counterexample:
  "subtraction_combo demo_sub = 1
   \<and> current_slice demo_sub = 1
   \<and> displayed_frame demo_sub = [[- 9, - 8], [- 7, - 6]]
   \<and> masked_roi demo_sub (displayed_frame demo_sub) = [- 8, - 7, - 6]
   \<and> fst (analyze_roi demo_sub) = Information (ROI_Analysis 4 2 2)
   \<and> roi_values demo_sub = [Num 10, Num 3, Num 30]"
  by code_simp

subsection \<open>Saving an ROI\<close>

lemma roi_value_defined:
  assumes "wf_images st" "\<not> out_of_bounds st" "2 \<le> roi_diameter st" "f \<in> set (images st)"
  shows "roi_value st f = Num (np_mean (masked_roi st f))"
proof -
  from assms(1,4) have "length f = image_height st"
    and "list_all (\<lambda>row. length row = image_width st) f"
    by (simp_all add: wf_images_def list_all_iff)
  then have "masked_roi st f \<noteq> []" using assms(2,3) by (rule masked_roi_nonempty)
  then show ?thesis by (simp add: roi_value_def)
qed

lemma roi_value_undefined:
  assumes "roi_diameter st \<le> 1"
  shows "roi_value st f = NaN"
proof (cases "roi_diameter st = 1")
  case True
  then show ?thesis by (simp add: roi_value_def masked_roi_one)
next
  case False
  with assms have "nat (roi_diameter st) = 0" by simp
  then have "circular_mask (roi_diameter st) (radius_of st) = []"
    by (simp add: circular_mask_def)
  then show ?thesis by (simp add: roi_value_def masked_roi_def bool_index_def)
qed

lemma register_roi_defined:
  assumes "not_nan vals \<noteq> []"
  shows "register_roi st roi_name vals =
    (Information (ROI_Saved roi_name),
     st\<lparr>roi_data := (roi_data st)(roi_name \<mapsto> vals),
        roi_table := roi_table st @
          [[roi_name, py_str (Min {x. Num x \<in> set vals}), py_str (Max {x. Num x \<in> set vals}),
            py_str (Max {x. Num x \<in> set vals} - Min {x. Num x \<in> set vals})]
           @ map roi_val_str vals]\<rparr>)"
  using assms by (simp add: register_roi_def Let_def np_min_Min np_max_Max set_not_nan)





lemma not_nan_roi_values:
  assumes "wf_images st" "\<not> out_of_bounds st" "2 \<le> roi_diameter st"
  shows "not_nan (roi_values st) \<noteq> []"
proof -
  from assms(1) obtain f where f: "f \<in> set (images st)"
    by (cases "images st") (auto simp: wf_images_def)
  then have "roi_value st f = Num (np_mean (masked_roi st f))"
    using assms by (intro roi_value_defined)
  with f have "Num (np_mean (masked_roi st f)) \<in> set (roi_values st)"
    by (force simp: roi_values_def)
  then have "np_mean (masked_roi st f) \<in> set (not_nan (roi_values st))"
    by (simp add: set_not_nan)
  then show ?thesis by auto
qed

text \<open>
  Claim C9, as amended. A save under a name that \<open>roi_data\<close> already holds replaces
  the entry: afterwards the mapping holds the new values under that name and has the same
  keys as before, so the names of the mapping are unique. With values that are defined the
  save is reported as a success, not as a warning, and the table gets a further row that
  starts with the same name: the rows of the table are not replaced.
\<close>

theorem save_roi_overwrites:
  assumes "overlay_checkbox st" and "py_strip (roi_name_input st) = roi_name"
    and "roi_name \<noteq> []" and "\<not> out_of_bounds st" and "roi_data st roi_name = Some old"
  shows "roi_data (snd (save_roi st)) = (roi_data st)(roi_name \<mapsto> roi_values st)
   \<and> roi_data (snd (save_roi st)) roi_name = Some (roi_values st)
   \<and> dom (roi_data (snd (save_roi st))) = dom (roi_data st)
   \<and> (wf_images st \<and> 2 \<le> roi_diameter st \<longrightarrow>
        fst (save_roi st) = Information (ROI_Saved roi_name)
        \<and> (\<exists>cells. roi_table (snd (save_roi st)) = roi_table st @ [roi_name # cells]))"
proof -
  have s: "save_roi st = register_roi st roi_name (roi_values st)"
    using assms by (simp add: save_roi_def)
  have m: "roi_data (snd (save_roi st)) = (roi_data st)(roi_name \<mapsto> roi_values st)"
    by (simp add: s register_roi_def Let_def)
  have d: "dom (roi_data (snd (save_roi st))) = dom (roi_data st)"
    using assms(5) by (auto simp: m)
  have ok: "fst (save_roi st) = Information (ROI_Saved roi_name)
        \<and> (\<exists>cells. roi_table (snd (save_roi st)) = roi_table st @ [roi_name # cells])"
    if "wf_images st \<and> 2 \<le> roi_diameter st"
  proof -
    from that assms(4) have "not_nan (roi_values st) \<noteq> []" by (intro not_nan_roi_values) simp_all
    then show ?thesis by (simp add: s register_roi_defined)
  qed
  show ?thesis using m d ok by simp
qed

lemma demo_named_fields:
  "overlay_checkbox demo_named" "py_strip (roi_name_input demo_named) = ''Bone''"
  "roi_data demo_named ''Bone'' = Some [Num 1, Num 2, Num 3]"
  "wf_images demo_named" "roi_diameter demo_named = 2"
  "roi_values demo_named = [Num 10, Num 3, Num 30]"
  "\<not> out_of_bounds demo_named"
  by code_simp+

text \<open>
  A second save under the name 'Bone'.
\<close>

theorem save_roi_overwrites_witness:
  "roi_data demo_named ''Bone'' = Some [Num 1, Num 2, Num 3]
   \<and> roi_data (snd (save_roi demo_named)) ''Bone'' = Some [Num 10, Num 3, Num 30]
   \<and> fst (save_roi demo_named) = Information (ROI_Saved ''Bone'')"
  using save_roi_overwrites [where st = demo_named and roi_name = "''Bone''"
      and old = "[Num 1, Num 2, Num 3]"] demo_named_fields
  by simp

text \<open>
  Claim C9 as stated fails for the table of the registry. After the second save under
  'Bone' the table holds two rows of that name.
\<close>

theorem registry_names_unique_counterexample:
  "map hd (roi_table (snd (save_roi demo_named))) = [''Bone'', ''Bone'']
   \<and> \<not> distinct (map hd (roi_table (snd (save_roi demo_named))))
   \<and> fst (save_roi demo_named) = Information (ROI_Saved ''Bone'')"
  by code_simp


subsection \<open>The corners of the mask\<close>

lemma corner_quadratic:
  fixes d :: int
  assumes "1 \<le> d"
  shows "2 * (d - 2)\<^sup>2 \<le> d\<^sup>2 \<longleftrightarrow> 2 \<le> d \<and> d \<le> 6"
proof
  assume le: "2 * (d - 2)\<^sup>2 \<le> d\<^sup>2"
  have id: "2 * (d - 2)\<^sup>2 = d\<^sup>2 + (d - 7) * (d - 1) + 1"
    by (simp add: power2_eq_square algebra_simps)
  show "2 \<le> d \<and> d \<le> 6"
  proof (rule ccontr)
    assume "\<not> (2 \<le> d \<and> d \<le> 6)"
    with assms have "d = 1 \<or> 7 \<le> d" by linarith
    then have "0 \<le> (d - 7) * (d - 1)" by auto
    with id le show False by linarith
  qed
next
  assume "2 \<le> d \<and> d \<le> 6"
  then have "d = 2 \<or> d = 3 \<or> d = 4 \<or> d = 5 \<or> d = 6" by linarith
  then show "2 * (d - 2)\<^sup>2 \<le> d\<^sup>2" by auto
qed

lemma mask_corner_origin:
  assumes "1 \<le> d"
  shows "\<not> mask_at (real_of_int d / 2) 0 0"
proof -
  have "0 < real_of_int d / 2" using assms by simp
  then have "0 < (real_of_int d / 2)\<^sup>2" by simp
  then show ?thesis using assms by (simp add: mask_at_sq)
qed

lemma mask_corner_side:
  assumes "1 \<le> d"
  shows "mask_at (real_of_int d / 2) 0 (nat (d - 1)) \<longleftrightarrow> d = 2"
    and "mask_at (real_of_int d / 2) (nat (d - 1)) 0 \<longleftrightarrow> d = 2"
proof -
  define r where "r = real_of_int d / 2"
  have n: "real (nat (d - 1)) = real_of_int d - 1" using assms by simp
  have r0: "0 \<le> r" using assms by (simp add: r_def)
  have e: "(real_of_int d - 1 - r = 0) \<longleftrightarrow> d = 2" by (auto simp: r_def)
  have "mask_at r 0 (nat (d - 1)) \<longleftrightarrow> (real_of_int d - 1 - r)\<^sup>2 + (0 - r)\<^sup>2 \<le> r\<^sup>2"
    using r0 n by (simp add: mask_at_sq)
  also have "\<dots> \<longleftrightarrow> (real_of_int d - 1 - r)\<^sup>2 \<le> 0" by simp
  also have "\<dots> \<longleftrightarrow> real_of_int d - 1 - r = 0" by simp
  finally show "mask_at (real_of_int d / 2) 0 (nat (d - 1)) \<longleftrightarrow> d = 2"
    using e by (simp add: r_def)
  have "mask_at r (nat (d - 1)) 0 \<longleftrightarrow> (0 - r)\<^sup>2 + (real_of_int d - 1 - r)\<^sup>2 \<le> r\<^sup>2"
    using r0 n by (simp add: mask_at_sq)
  also have "\<dots> \<longleftrightarrow> (real_of_int d - 1 - r)\<^sup>2 \<le> 0" by simp
  also have "\<dots> \<longleftrightarrow> real_of_int d - 1 - r = 0" by simp
  finally show "mask_at (real_of_int d / 2) (nat (d - 1)) 0 \<longleftrightarrow> d = 2"
    using e by (simp add: r_def)
qed

lemma mask_corner_far:
  assumes "1 \<le> d"
  shows "mask_at (real_of_int d / 2) (nat (d - 1)) (nat (d - 1)) \<longleftrightarrow> 2 \<le> d \<and> d \<le> 6"
proof -
  define r where "r = real_of_int d / 2"
  have n: "real (nat (d - 1)) = real_of_int d - 1" using assms by simp
  have r0: "0 \<le> r" using assms by (simp add: r_def)
  have "mask_at r (nat (d - 1)) (nat (d - 1))
      \<longleftrightarrow> (real_of_int d - 1 - r)\<^sup>2 + (real_of_int d - 1 - r)\<^sup>2 \<le> r\<^sup>2"
    using r0 n by (simp add: mask_at_sq)
  also have "\<dots> \<longleftrightarrow> 2 * (real_of_int d - 2)\<^sup>2 \<le> (real_of_int d)\<^sup>2"
  proof -
    define A where "A = (real_of_int d - 2)\<^sup>2"
    define B where "B = (real_of_int d)\<^sup>2"
    have a: "(real_of_int d - 1 - r)\<^sup>2 = A / 4"
      by (simp add: r_def A_def power2_eq_square field_simps)
    have b: "r\<^sup>2 = B / 4" by (simp add: r_def B_def power2_eq_square)
    have "(A / 4 + A / 4 \<le> B / 4) \<longleftrightarrow> (2 * A \<le> B)" by auto
    then show ?thesis by (simp only: a b A_def B_def)
  qed
  also have "\<dots> \<longleftrightarrow> real_of_int (2 * (d - 2)\<^sup>2) \<le> real_of_int (d\<^sup>2)" by simp
  also have "\<dots> \<longleftrightarrow> 2 * (d - 2)\<^sup>2 \<le> d\<^sup>2" by (simp only: of_int_le_iff)
  also have "\<dots> \<longleftrightarrow> 2 \<le> d \<and> d \<le> 6" using assms by (rule corner_quadratic)
  finally show ?thesis by (simp add: r_def)
qed

lemma mask_at_euclidean:
  "mask_at r Y X \<longleftrightarrow> euclidean (real X, real Y) (r, r) \<le> r"
  by (simp add: mask_at_def dist_from_center_def euclidean_def)

lemma mask_counts: "mask_count 10 = 79" "mask_count 20 = 315"
  by code_simp+

subsection \<open>The number of pixels of the mask\<close>

lemma sq_less: "\<bar>t\<bar> < r \<Longrightarrow> t\<^sup>2 < r\<^sup>2" for t r :: real
  by (metis abs_ge_zero power2_abs power_strict_mono pos2)

lemma sq_le: "\<bar>t\<bar> \<le> r \<Longrightarrow> t\<^sup>2 \<le> r\<^sup>2" for t r :: real
  by (metis abs_ge_zero abs_le_square_iff abs_of_nonneg order_trans)

lemma segment_area_deriv:
  assumes "\<bar>t\<bar> < r"
  shows "(segment_area r has_real_derivative chord r t) (at t)"
proof -
  have r: "0 < r" using assms by linarith
  have lt: "t\<^sup>2 < r\<^sup>2" using assms by (rule sq_less)
  define s where "s = sqrt (r\<^sup>2 - t\<^sup>2)"
  have s0: "0 < s" using lt by (simp add: s_def)
  have s2: "s * s = r\<^sup>2 - t\<^sup>2" using lt by (simp add: s_def)
  have "- r < t" "t < r" using assms by (simp_all add: abs_less_iff)
  then have tr: "- 1 < t / r" "t / r < 1" using r by (simp_all add: field_simps)
  have q: "sqrt (1 - (t / r)\<^sup>2) = s / r"
  proof -
    have "1 - (t / r)\<^sup>2 = (r\<^sup>2 - t\<^sup>2) / r\<^sup>2" using r by (simp add: field_simps power2_eq_square)
    then have "sqrt (1 - (t / r)\<^sup>2) = sqrt (r\<^sup>2 - t\<^sup>2) / sqrt (r\<^sup>2)" by (simp add: real_sqrt_divide)
    then show ?thesis using r by (simp add: s_def)
  qed
  have d1: "((\<lambda>t. sqrt (r\<^sup>2 - t\<^sup>2)) has_real_derivative (- t / s)) (at t)"
    using lt s0 by (auto intro!: derivative_eq_intros simp: s_def field_simps)
  have d2: "((\<lambda>t. arcsin (t / r)) has_real_derivative (1 / s)) (at t)"
  proof -
    have "((\<lambda>t. arcsin (t / r)) has_real_derivative (inverse (sqrt (1 - (t / r)\<^sup>2)) * (1 / r))) (at t)"
      using tr r by (auto intro!: derivative_eq_intros)
    moreover have "inverse (sqrt (1 - (t / r)\<^sup>2)) * (1 / r) = 1 / s"
      unfolding q using r s0 by (simp add: field_simps)
    ultimately show ?thesis by simp
  qed
  have "((\<lambda>t. t * sqrt (r\<^sup>2 - t\<^sup>2) + r\<^sup>2 * arcsin (t / r)) has_real_derivative
          (1 * sqrt (r\<^sup>2 - t\<^sup>2) + (- t / s) * t + r\<^sup>2 * (1 / s))) (at t)"
    by (intro derivative_intros DERIV_mult' d1 d2 DERIV_cmult DERIV_ident)
  moreover have "1 * sqrt (r\<^sup>2 - t\<^sup>2) + (- t / s) * t + r\<^sup>2 * (1 / s) = chord r t"
  proof -
    have "(- t / s) * t + r\<^sup>2 * (1 / s) = (r\<^sup>2 - t\<^sup>2) / s"
      by (simp add: power2_eq_square diff_divide_distrib)
    also have "\<dots> = s" using s0 s2 by (simp add: field_simps)
    finally show ?thesis by (simp add: chord_def s_def)
  qed
  ultimately show ?thesis by (simp add: segment_area_def [abs_def])
qed


lemma segment_area_cont:
  assumes "0 < r"
  shows "continuous_on {- r..r} (segment_area r)"
proof -
  have "\<forall>t\<in>{- r..r}. - 1 \<le> t / r \<and> t / r \<le> 1" using assms by (simp add: field_simps)
  then have a: "continuous_on {- r..r} (\<lambda>t. arcsin (t / r))"
    using assms by (intro continuous_on_arcsin continuous_intros) auto
  show ?thesis
    unfolding segment_area_def [abs_def] by (intro continuous_intros a)
qed

lemma segment_area_step:
  assumes "- r \<le> a" and "a + 1 \<le> r"
  shows "\<exists>z. a < z \<and> z < a + 1 \<and> segment_area r (a + 1) - segment_area r a = chord r z"
proof -
  have r: "0 < r" using assms by linarith
  have c: "continuous_on {a..a + 1} (segment_area r)"
    by (rule continuous_on_subset [OF segment_area_cont [OF r]]) (use assms in auto)
  have d: "segment_area r differentiable (at x)" if "a < x" "x < a + 1" for x
  proof -
    have "\<bar>x\<bar> < r" using that assms by (simp add: abs_less_iff)
    then show ?thesis using segment_area_deriv real_differentiable_def by blast
  qed
  have "a < a + 1" by simp
  from MVT [OF this c d] obtain l z where z: "a < z" "z < a + 1"
    and l: "(segment_area r has_real_derivative l) (at z)"
    and e: "segment_area r (a + 1) - segment_area r a = (a + 1 - a) * l"
    by blast
  have "\<bar>z\<bar> < r" using z assms by (simp add: abs_less_iff)
  then have "(segment_area r has_real_derivative chord r z) (at z)" by (rule segment_area_deriv)
  with l have "l = chord r z" by (rule DERIV_unique)
  with z e show ?thesis by auto
qed

lemma segment_area_total:
  assumes "0 < r"
  shows "segment_area r r - segment_area r (- r) = pi * r\<^sup>2"
  using assms by (simp add: segment_area_def arcsin_minus field_simps)

lemma chord_mono:
  assumes "\<bar>s\<bar> \<le> \<bar>t\<bar>"
  shows "chord r t \<le> chord r s"
proof -
  have "s\<^sup>2 \<le> t\<^sup>2" using assms by (simp add: abs_le_square_iff)
  then show ?thesis by (simp add: chord_def)
qed

lemma chord_le: "0 \<le> r \<Longrightarrow> chord r t \<le> 2 * r"
proof -
  assume r: "0 \<le> r"
  have "sqrt (r\<^sup>2 - t\<^sup>2) \<le> sqrt (r\<^sup>2)" by (simp del: real_sqrt_abs)
  then show ?thesis using r by (simp add: chord_def)
qed

lemma chord_ends: "0 \<le> r \<Longrightarrow> chord r r = 0" "chord r (- r) = 0" "0 \<le> r \<Longrightarrow> chord r 0 = 2 * r"
  by (simp_all add: chord_def)

lemma chord_step:
  assumes "0 \<le> r" "a < z" "z < a + 1"
  shows "\<bar>chord r z - chord r a\<bar> \<le> variation r (a + 1) - variation r a"
proof -
  consider "a + 1 \<le> 0" | "0 \<le> a" | "a < 0" "0 < a + 1" by linarith
  then show ?thesis
  proof cases
    case 1
    have "chord r a \<le> chord r z" using 1 assms by (intro chord_mono) simp
    moreover have "chord r z \<le> chord r (a + 1)" using 1 assms by (intro chord_mono) simp
    ultimately show ?thesis using 1 by (simp add: variation_def)
  next
    case 2
    have "chord r z \<le> chord r a" using 2 assms by (intro chord_mono) simp
    moreover have "chord r (a + 1) \<le> chord r z" using 2 assms by (intro chord_mono) simp
    moreover have "a = 0 \<Longrightarrow> chord r a = 2 * r" using assms(1) by (simp add: chord_ends)
    ultimately show ?thesis using 2 by (auto simp: variation_def)
  next
    case 3
    have le: "chord r a \<le> 2 * r" "chord r (a + 1) \<le> 2 * r" "chord r z \<le> 2 * r"
      using assms(1) by (simp_all add: chord_le)
    have "chord r a \<le> chord r z \<or> chord r (a + 1) \<le> chord r z"
    proof (cases "z \<le> 0")
      case True
      then have "chord r a \<le> chord r z" using assms by (intro chord_mono) simp
      then show ?thesis ..
    next
      case False
      then have "chord r (a + 1) \<le> chord r z" using assms by (intro chord_mono) simp
      then show ?thesis ..
    qed
    with le show ?thesis using 3 by (auto simp: variation_def)
  qed
qed


lemma riemann_bound:
  fixes n :: nat
  assumes "0 < n" and r: "r = real n / 2"
  shows "\<bar>pi * r\<^sup>2 - (\<Sum>j<n. chord r (real j - r))\<bar> \<le> 4 * r"
proof -
  have r0: "0 < r" using assms by simp
  define A where "A j = segment_area r (real j - r)" for j :: nat
  define W where "W j = variation r (real j - r)" for j :: nat
  have step: "\<bar>(A (Suc j) - A j) - chord r (real j - r)\<bar> \<le> W (Suc j) - W j" if "j < n" for j
  proof -
    have lo: "- r \<le> real j - r" by simp
    have "real (Suc j) \<le> real n" using that by simp
    then have hi: "real j - r + 1 \<le> r" using r by simp
    from segment_area_step [OF lo hi] obtain z where z: "real j - r < z" "z < real j - r + 1"
      and e: "segment_area r (real j - r + 1) - segment_area r (real j - r) = chord r z"
      by blast
    have s: "real (Suc j) - r = real j - r + 1" by simp
    have "\<bar>chord r z - chord r (real j - r)\<bar>
        \<le> variation r (real j - r + 1) - variation r (real j - r)"
      using r0 z by (intro chord_step) simp_all
    then show ?thesis unfolding A_def W_def s e .
  qed
  have nr: "real n - r = r" using r by simp
  have "(\<Sum>j<n. A (Suc j) - A j) = A n - A 0" by (rule sum_lessThan_telescope)
  also have "\<dots> = pi * r\<^sup>2"
    using segment_area_total [OF r0] by (simp add: A_def nr)
  finally have tel: "(\<Sum>j<n. A (Suc j) - A j) = pi * r\<^sup>2" .
  have "pi * r\<^sup>2 - (\<Sum>j<n. chord r (real j - r))
      = (\<Sum>j<n. (A (Suc j) - A j) - chord r (real j - r))"
    unfolding sum_subtractf [of "\<lambda>j. A (Suc j) - A j"] tel ..
  also have "\<bar>\<dots>\<bar> \<le> (\<Sum>j<n. \<bar>(A (Suc j) - A j) - chord r (real j - r)\<bar>)"
    by (rule sum_abs)
  also have "\<dots> \<le> (\<Sum>j<n. W (Suc j) - W j)"
    by (rule sum_mono) (simp add: step)
  also have "\<dots> = W n - W 0" by (rule sum_lessThan_telescope)
  also have "\<dots> = 4 * r"
    using r0 by (simp add: W_def variation_def chord_ends nr)
  finally show ?thesis .
qed


lemma row_count:
  fixes n Y :: nat
  assumes Y: "Y < n" and r: "r = real n / 2"
  shows "\<bar>real (length (filter (mask_at r Y) [0..<n])) - chord r (real Y - r)\<bar> \<le> 1"
proof -
  have r0: "0 < r" using assms by simp
  have n: "real n = 2 * r" using r by simp
  define h where "h = sqrt (r\<^sup>2 - (real Y - r)\<^sup>2)"
  have "\<bar>real Y - r\<bar> \<le> r" using Y n by (simp add: abs_le_iff)
  then have y2: "(real Y - r)\<^sup>2 \<le> r\<^sup>2" by (rule sq_le)
  then have h0: "0 \<le> h" by (simp add: h_def)
  have h2: "h\<^sup>2 = r\<^sup>2 - (real Y - r)\<^sup>2" using y2 by (simp add: h_def)
  have "h\<^sup>2 \<le> r\<^sup>2" by (simp add: h2)
  then have hr: "h \<le> r" using r0 h0 by (simp add: power2_le_iff_abs_le)
  have c: "chord r (real Y - r) = 2 * h" by (simp add: chord_def h_def)
  define lo where "lo = nat \<lceil>r - h\<rceil>"
  define hi where "hi = nat \<lfloor>r + h\<rfloor>"
  have lo_le: "real lo < r - h + 1" using hr by (simp add: lo_def; linarith?)
  have lo_ge: "r - h \<le> real lo" using hr by (simp add: lo_def; linarith?)
  have hi_le: "real hi \<le> r + h" using r0 h0 by (simp add: hi_def; linarith?)
  have hi_ge: "r + h - 1 < real hi" using r0 h0 by (simp add: hi_def; linarith?)
  have P: "mask_at r Y X \<longleftrightarrow> lo \<le> X \<and> X \<le> hi" for X
  proof -
    have "mask_at r Y X \<longleftrightarrow> (real X - r)\<^sup>2 \<le> h\<^sup>2"
      using r0 by (simp add: mask_at_sq h2; linarith?)
    also have "\<dots> \<longleftrightarrow> \<bar>real X - r\<bar> \<le> h" using h0 by (simp add: power2_le_iff_abs_le)
    also have "\<dots> \<longleftrightarrow> r - h \<le> real X \<and> real X \<le> r + h" by (auto simp: abs_le_iff)
    also have "\<dots> \<longleftrightarrow> lo \<le> X \<and> X \<le> hi"
      using hr r0 h0 by (simp add: lo_def hi_def nat_le_iff le_nat_iff ceiling_le_iff le_floor_iff)
    finally show ?thesis .
  qed
  have len: "length (filter (mask_at r Y) [0..<n]) = card {X. X < n \<and> lo \<le> X \<and> X \<le> hi}"
  proof -
    have "{i. i < n \<and> lo \<le> [0..<n] ! i \<and> [0..<n] ! i \<le> hi} = {X. X < n \<and> lo \<le> X \<and> X \<le> hi}"
      by auto
    then show ?thesis by (simp add: length_filter_conv_card P)
  qed
  show ?thesis
  proof (cases "hi < n")
    case True
    have "{X. X < n \<and> lo \<le> X \<and> X \<le> hi} = {lo..hi}" using True by auto
    then have k: "length (filter (mask_at r Y) [0..<n]) = Suc hi - lo" by (simp add: len)
    have "real (Suc hi - lo) \<le> 2 * h + 1"
      using hi_le lo_ge h0 by (cases "lo \<le> Suc hi") (simp_all add: of_nat_diff)
    moreover have "2 * h - 1 \<le> real (Suc hi - lo)"
      using hi_ge lo_le h0 by (cases "lo \<le> Suc hi") (simp_all add: of_nat_diff)
    ultimately show ?thesis by (simp add: k c abs_le_iff)
  next
    case False
    then have "real n \<le> real hi" by simp
    with hi_le n hr have hr': "h = r" by linarith
    then have "lo = 0" by (simp add: lo_def)
    then have "{X. X < n \<and> lo \<le> X \<and> X \<le> hi} = {..<n}" using False by auto
    then have "length (filter (mask_at r Y) [0..<n]) = n" by (simp add: len)
    then show ?thesis using n hr' by (simp add: c abs_le_iff)
  qed
qed

lemma mask_count_rows:
  "mask_count d = (\<Sum>Y<nat d. length (filter (mask_at (real_of_int d / 2) Y) [0..<nat d]))"
proof -
  have "length (filter id (map f xs)) = length (filter f xs)" for f :: "nat \<Rightarrow> bool" and xs
    by (induction xs) simp_all
  then show ?thesis
    by (simp add: mask_count_def circular_mask_def filter_concat length_concat comp_def
        interv_sum_list_conv_sum_set_nat atLeast0LessThan)
qed

lemma mask_count_pi:
  assumes "1 \<le> d"
  shows "\<bar>real (mask_count d) - pi * (real_of_int d / 2)\<^sup>2\<bar> \<le> 3 * real_of_int d"
proof -
  define n where "n = nat d"
  define r where "r = real n / 2"
  have n0: "0 < n" and dn: "real_of_int d = real n" using assms by (simp_all add: n_def)
  have rr: "real_of_int d / 2 = r" by (simp add: r_def dn)
  define c where "c Y = length (filter (mask_at r Y) [0..<n])" for Y
  have rows: "\<bar>real (c Y) - chord r (real Y - r)\<bar> \<le> 1" if "Y < n" for Y
    unfolding c_def using that by (rule row_count) (simp add: r_def)
  have "real (mask_count d) = (\<Sum>Y<n. real (c Y))"
    by (simp add: mask_count_rows rr c_def n_def)
  then have "real (mask_count d) - (\<Sum>Y<n. chord r (real Y - r))
      = (\<Sum>Y<n. real (c Y) - chord r (real Y - r))"
    by (simp add: sum_subtractf)
  also have "\<bar>\<dots>\<bar> \<le> (\<Sum>Y<n. \<bar>real (c Y) - chord r (real Y - r)\<bar>)" by (rule sum_abs)
  also have "\<dots> \<le> (\<Sum>Y<n. 1)" by (rule sum_mono) (simp add: rows)
  finally have a: "\<bar>real (mask_count d) - (\<Sum>Y<n. chord r (real Y - r))\<bar> \<le> real n" by simp
  have b: "\<bar>pi * r\<^sup>2 - (\<Sum>j<n. chord r (real j - r))\<bar> \<le> 4 * r"
    using n0 by (rule riemann_bound) (simp add: r_def)
  have "4 * r = 2 * real n" by (simp add: r_def)
  with a b have "\<bar>real (mask_count d) - pi * r\<^sup>2\<bar> \<le> 3 * real n" by linarith
  then show ?thesis by (simp only: rr) (simp only: dn)
qed


text \<open>
  Claim C7, as amended. A pixel at offset \<open>(X, Y)\<close> of the box is in the mask exactly
  when its Euclidean distance from the centre \<open>(r, r)\<close> of the box is at most the radius
  \<open>r = d / 2\<close>. The corner pixel at offset (0, 0) is never in the mask. The corner pixels
  at \<open>(d - 1, 0)\<close> and \<open>(0, d - 1)\<close> are in the mask only for \<open>d = 2\<close>, and the one at
  \<open>(d - 1, d - 1)\<close> exactly for \<open>d\<close> from 2 to 6: from the diameter 7 on no corner pixel
  is selected. For every diameter the number of selected pixels differs from the area
  \<open>pi * (d / 2)\<^sup>2\<close> of the disc by at most \<open>3 * d\<close>; it is 79 for the diameter 10 and 315
  for the diameter 20, where the area is about 78.5 and 314.2.
\<close>

theorem circular_mask_pixels:
  assumes "1 \<le> d"
  shows "(Y < nat d \<and> X < nat d \<longrightarrow>
            (circular_mask d (real_of_int d / 2) ! Y ! X
               \<longleftrightarrow> euclidean (real X, real Y) (real_of_int d / 2, real_of_int d / 2)
                     \<le> real_of_int d / 2))
       \<and> \<not> circular_mask d (real_of_int d / 2) ! 0 ! 0
       \<and> (circular_mask d (real_of_int d / 2) ! 0 ! nat (d - 1) \<longleftrightarrow> d = 2)
       \<and> (circular_mask d (real_of_int d / 2) ! nat (d - 1) ! 0 \<longleftrightarrow> d = 2)
       \<and> (circular_mask d (real_of_int d / 2) ! nat (d - 1) ! nat (d - 1)
            \<longleftrightarrow> 2 \<le> d \<and> d \<le> 6)
       \<and> \<bar>real (mask_count d) - pi * (real_of_int d / 2)\<^sup>2\<bar> \<le> 3 * real_of_int d
       \<and> mask_count 10 = 79 \<and> mask_count 20 = 315"
proof -
  have z: "0 < nat d" and l: "nat (d - 1) < nat d" using assms by simp_all
  show ?thesis
    using assms z l mask_corner_origin [of d] mask_corner_side [of d] mask_corner_far [of d]
      mask_count_pi [of d]
    by (simp add: circular_mask_nth mask_at_euclidean mask_counts)
qed

text \<open>
  The diameter 7: no corner, and the pixel in the middle.
\<close>

theorem circular_mask_pixels_witness:
  "(1::int) \<le> 7
   \<and> \<not> circular_mask 7 (real_of_int 7 / 2) ! 0 ! 0
   \<and> \<not> circular_mask 7 (real_of_int 7 / 2) ! 0 ! 6
   \<and> \<not> circular_mask 7 (real_of_int 7 / 2) ! 6 ! 0
   \<and> \<not> circular_mask 7 (real_of_int 7 / 2) ! 6 ! 6
   \<and> circular_mask 7 (real_of_int 7 / 2) ! 3 ! 3
   \<and> euclidean (3, 3) (7 / 2, 7 / 2) \<le> 7 / 2
   \<and> \<bar>real (mask_count 7) - pi * (7 / 2)\<^sup>2\<bar> \<le> 21"
  using circular_mask_pixels [of 7 3 3] mask_at_middle [of 7]
  by (simp add: circular_mask_nth)

text \<open>
  Claim C7 as stated fails: for the diameter 2 three of the four corner pixels are in the
  mask, and for the diameter 6 the corner pixel at offset (5, 5) is.
\<close>

theorem corners_excluded_counterexample:
  "circular_mask 2 (real_of_int 2 / 2) = [[False, True], [True, True]]
   \<and> circular_mask 2 (real_of_int 2 / 2) ! 1 ! 1
   \<and> circular_mask 6 (real_of_int 6 / 2) ! 5 ! 5"
  by code_simp


subsection \<open>Automatic window\<close>









subsection \<open>The exported table\<close>

lemma is_digit_digit: "n < 10 \<Longrightarrow> is_digit (digit n)"
proof -
  assume "n < 10"
  then have "n < length ''0123456789''" by simp
  then have "''0123456789'' ! n \<in> set ''0123456789''" by (rule nth_mem)
  then show ?thesis by (simp only: is_digit_def digit_def)
qed

lemma dec_digits_digits: "list_all is_digit (dec_digits n)"
proof (induction n rule: dec_digits.induct)
  case (1 n)
  show ?case
  proof (cases "n < 10")
    case True
    then show ?thesis by (subst dec_digits.simps) (simp add: is_digit_digit)
  next
    case False
    with 1 have "list_all is_digit (dec_digits (n div 10))" by simp
    moreover have "is_digit (digit (n mod 10))" by (simp add: is_digit_digit)
    ultimately show ?thesis using False by (subst dec_digits.simps) simp
  qed
qed

lemma dec_digits_nonempty: "dec_digits n \<noteq> []"
  by (subst dec_digits.simps) simp

lemma point_no_digit: "\<not> is_digit (CHR ''.'')" "\<not> is_digit (CHR ''-'')"
  "\<not> is_digit (CHR '','')" "\<not> is_digit (CHR 0x22)" "\<not> is_digit (CHR 0x0A)" "\<not> is_digit (CHR 0x0D)"
  by (simp_all add: is_digit_def)

lemma point_not_in_digits: "CHR ''.'' \<notin> set (dec_digits n)"
  using dec_digits_digits [of n] point_no_digit(1) by (auto simp: list_all_iff)

lemma two_decimals_format_2f: "two_decimals (format_2f x)"
proof -
  define n where "n = nat (round_half_even (\<bar>x\<bar> * 100))"
  define sgn where "sgn = (if x < 0 then ''-'' else [])"
  have f: "format_2f x = sgn @ dec_digits (n div 100) @ ''.'' @ [digit (n mod 100 div 10), digit (n mod 10)]"
    by (simp add: format_2f_def Let_def n_def sgn_def)
  have r: "rev (format_2f x) =
      digit (n mod 10) # digit (n mod 100 div 10) # CHR ''.'' # (rev (dec_digits (n div 100)) @ rev sgn)"
    by (simp add: f)
  have a: "is_digit (digit (n mod 10))" by (simp add: is_digit_digit)
  have "n mod 100 div 10 < 10" by (simp add: div_less_iff_less_mult)
  then have b: "is_digit (digit (n mod 100 div 10))" by (rule is_digit_digit)
  have c: "rev (dec_digits (n div 100)) @ rev sgn \<noteq> []" by (simp add: dec_digits_nonempty)
  have d: "CHR ''.'' \<notin> set (rev (dec_digits (n div 100)) @ rev sgn)"
    by (simp add: point_not_in_digits sgn_def)
  show ?thesis unfolding two_decimals_def r using a b c d by simp
qed

lemma csv_field_plain: "plain s \<Longrightarrow> csv_field s = s"
proof -
  assume "plain s"
  then have "\<not> list_ex (\<lambda>c. c \<in> set [CHR '','', CHR 0x22, CHR 0x0A, CHR 0x0D]) s"
    using point_no_digit by (auto simp: plain_def list_all_iff list_ex_iff)
  then show ?thesis by (simp only: csv_field_def if_False)
qed

lemma plain_digits: "plain (dec_digits n)"
  using dec_digits_digits [of n] by (auto simp: plain_def list_all_iff)

lemma plain_append: "plain (s @ t) \<longleftrightarrow> plain s \<and> plain t"
  by (simp add: plain_def)

lemma plain_chars:
  "plain (replicate k (CHR ''0''))" "plain ''.''" "plain ''-''" "plain ''+''" "plain ''e''"
  "plain []" "plain ''0''" "plain ''.0''" "plain ''0.0''" "plain ''-0.0''"
  "plain ''inf''" "plain ''-inf''"
  by (simp_all add: plain_def is_digit_def list_all_iff)

lemma plain_format_2f: "plain (format_2f x)"
proof -
  define n where "n = nat (round_half_even (\<bar>x\<bar> * 100))"
  define sgn where "sgn = (if x < 0 then ''-'' else [])"
  have f: "format_2f x =
      sgn @ dec_digits (n div 100) @ ''.'' @ [digit (n mod 100 div 10), digit (n mod 10)]"
    by (simp add: format_2f_def Let_def n_def sgn_def)
  have "n mod 100 div 10 < 10" by (simp add: div_less_iff_less_mult)
  then have "plain [digit (n mod 100 div 10), digit (n mod 10)]"
    by (simp add: plain_def is_digit_digit)
  moreover have "plain sgn" by (simp add: sgn_def plain_chars)
  ultimately show ?thesis unfolding f by (simp only: plain_append plain_digits plain_chars)
qed

lemma int_digits_digits: "list_all is_digit (int_digits n)"
proof (induction n rule: int_digits.induct)
  case (1 n)
  show ?case
  proof (cases "n < 10")
    case True
    then have "nat n < 10" by simp
    with True show ?thesis by (subst int_digits.simps) (simp add: is_digit_digit)
  next
    case False
    with 1 have "list_all is_digit (int_digits (n div 10))" by simp
    moreover have "nat (n mod 10) < 10" by simp
    then have "is_digit (digit (nat (n mod 10)))" by (rule is_digit_digit)
    ultimately show ?thesis using False by (subst int_digits.simps) simp
  qed
qed

lemma plain_int_digits: "plain (int_digits n)"
  using int_digits_digits [of n] by (auto simp: plain_def list_all_iff)

lemma plain_subset: "plain s \<Longrightarrow> set t \<subseteq> set s \<Longrightarrow> plain t"
  by (auto simp: plain_def list_all_iff)

lemma set_strip_zeros: "set (strip_zeros s) \<subseteq> set s"
proof -
  have "set (dropWhile (\<lambda>c. c = CHR ''0'') (rev s)) \<subseteq> set (rev s)"
    by (auto dest: set_dropWhileD)
  then show ?thesis by (simp add: strip_zeros_def)
qed

lemma plain_strip_zeros: "plain s \<Longrightarrow> plain (strip_zeros s)"
  by (rule plain_subset [OF _ set_strip_zeros])

lemma is_digit_zero: "is_digit (CHR ''0'')"
  by (simp add: is_digit_def)

lemma plain_Cons: "plain (c # s) \<longleftrightarrow> (is_digit c \<or> c \<in> set ''.-+einf'') \<and> plain s"
  by (simp add: plain_def)

lemma plain_pad_zeros: "plain s \<Longrightarrow> plain (pad_zeros w s)"
  by (simp add: pad_zeros_def plain_append plain_chars)

lemma plain_positional: "plain (positional n p)"
  by (simp add: positional_def Let_def plain_append plain_Cons is_digit_zero plain_int_digits plain_chars
      plain_strip_zeros plain_pad_zeros)

lemma plain_scientific: "plain (scientific n p)"
proof -
  have "plain (take 1 (int_digits n))" and "plain (tl (int_digits n))"
    using plain_int_digits [of n] by (cases "int_digits n"; simp add: plain_def)+
  then show ?thesis
    by (simp add: scientific_def Let_def plain_append plain_Cons is_digit_zero plain_int_digits plain_chars
        plain_strip_zeros plain_pad_zeros)
qed

lemma plain_py_str: "plain (py_str x)"
  by (auto simp: py_str_def Let_def plain_append plain_Cons is_digit_zero plain_positional plain_scientific
      plain_chars split: prod.split)


lemma plain_roi_val_str: "plain (roi_val_str v) \<or> roi_val_str v = ''NaN''"
  by (cases v) (simp_all add: plain_format_2f)

lemma csv_field_roi_val_str: "csv_field (roi_val_str v) = roi_val_str v"
proof (cases v)
  case (Num x)
  then show ?thesis by (simp add: csv_field_plain plain_format_2f)
next
  case NaN
  then show ?thesis by (simp add: csv_field_def)
qed

lemma csv_headers_register [simp]:
  "csv_headers (snd (register_roi st roi_name vals)) = csv_headers st"
  by (simp add: csv_headers_def register_roi_def Let_def)

text \<open>
  Some floats as \<^verbatim>\<open>str\<close> prints them: the float32 nearest to 10/3 and to 1/3, a float
  with a short decimal, the two ends of the positional notation, an integer beyond the
  precision, a negative value and a power of two.
\<close>

lemma py_str_examples:
  "py_str (10 / 3) = ''3.3333333''"
  "py_str (1 / 3) = ''0.33333334''"
  "py_str 20000.455078125 = ''20000.455''"
  "py_str (10 ^ 16) = ''1e+16''"
  "py_str (1 / 10 ^ 5) = ''1e-05''"
  "py_str (1 / 10 ^ 4) = ''1e-04''"
  "py_str 123456789 = ''123456790.0''"
  "py_str (- 2.5) = ''-2.5''"
  "py_str 0.1 = ''0.1''"
  "py_str 1024 = ''1024.0''"
  "py_str (2 ^ 128) = ''inf''"
  by code_simp+

text \<open>
  Claim C2, as amended. The row that the export writes for a saved ROI is the name, the
  minimum, the maximum and the difference as \<^verbatim>\<open>str\<close> prints them, and one field for
  every slice: the value with exactly two decimal places, or the text NaN for an undefined
  value. None of the numeric fields is quoted.
\<close>

theorem csv_row_format:
  assumes "not_nan vals \<noteq> []" and "file_name \<noteq> []"
    and "mn = np_min (not_nan vals)" and "mx = np_max (not_nan vals)"
  shows "snd (save_to_csv (snd (register_roi st roi_name vals)) file_name) =
           Some (map csv_line (csv_headers st # roi_table st) @
                 [join '','' (csv_field roi_name # py_str mn # py_str mx # py_str (mx - mn)
                              # map roi_val_str vals)])
       \<and> roi_val_str NaN = ''NaN''
       \<and> two_decimals (roi_val_str (Num x))"
proof -
  have t: "roi_table (snd (register_roi st roi_name vals)) =
      roi_table st @ [roi_name # py_str mn # py_str mx # py_str (mx - mn) # map roi_val_str vals]"
    using assms(1) by (simp add: register_roi_def Let_def assms(3,4))
  have m: "map (csv_field \<circ> roi_val_str) vals = map roi_val_str vals"
    by (simp add: csv_field_roi_val_str)
  have l: "csv_line (roi_name # py_str mn # py_str mx # py_str (mx - mn) # map roi_val_str vals) =
      join '','' (csv_field roi_name # py_str mn # py_str mx # py_str (mx - mn) # map roi_val_str vals)"
    by (simp add: csv_line_def csv_field_plain plain_py_str m)
  have "snd (save_to_csv (snd (register_roi st roi_name vals)) file_name) =
           Some (map csv_line (csv_headers st # roi_table st) @
                 [join '','' (csv_field roi_name # py_str mn # py_str mx # py_str (mx - mn)
                              # map roi_val_str vals)])"
    using assms(2) by (simp add: save_to_csv_def t l)
  then show ?thesis by (simp add: two_decimals_format_2f)
qed

lemma bone_examples:
  "py_str 10 = ''10.0''" "py_str 30 = ''30.0''" "py_str 20 = ''20.0''"
  "format_2f 10 = ''10.00''" "format_2f 30 = ''30.00''"
  "csv_field ''Bone'' = ''Bone''"
  "csv_line (csv_headers demo) = ''Name,Min Value,Max Value,Difference,Slice0,Slice1,Slice2''"
  "roi_table demo = []" "two_decimals ''10.00''"
  by code_simp+

text \<open>
  The ROI 'Bone' with the values 10, undefined, 30.
\<close>

theorem csv_row_format_witness:
  "not_nan [Num 10, NaN, Num 30] \<noteq> []
   \<and> snd (save_to_csv (snd (register_roi demo ''Bone'' [Num 10, NaN, Num 30])) ''rois.csv'') =
       Some [''Name,Min Value,Max Value,Difference,Slice0,Slice1,Slice2'',
             ''Bone,10.0,30.0,20.0,10.00,NaN,30.00'']
   \<and> two_decimals (roi_val_str (Num 10))"
  using csv_row_format [where vals = "[Num 10, NaN, Num 30]" and file_name = "''rois.csv''"
      and mn = 10 and mx = 30 and st = demo and roi_name = "''Bone''" and x = 10]
    bone_examples
  by simp

text \<open>
  Claim C2 as stated fails: the minimum, the maximum and the difference of 'Bone' are
  written as 10.0, 30.0 and 20.0, with one decimal place.
\<close>

theorem csv_two_decimals_counterexample:
  "snd (save_to_csv (snd (register_roi demo ''Bone'' [Num 10, NaN, Num 30])) ''rois.csv'') =
       Some [''Name,Min Value,Max Value,Difference,Slice0,Slice1,Slice2'',
             ''Bone,10.0,30.0,20.0,10.00,NaN,30.00'']
   \<and> ''Bone,10.0,30.0,20.0,10.00,NaN,30.00'' \<noteq> ''Bone,10.00,30.00,20.00,10.00,NaN,30.00''
   \<and> \<not> two_decimals (py_str 10)"
  by code_simp


end
